theory Spec2Isabelle
  imports Main "HOL-Library.Sublist"
begin

section \<open>Zenless Collector: the code extraction and filtering pipeline\<close>

text \<open>
  A shallow embedding of \<^verbatim>\<open>Main.py\<close>: the helper \<^verbatim>\<open>parse_date\<close>, the function
  \<^verbatim>\<open>fetch_codes\<close> (row loop, duplicate removal, sorting), the cache functions
  \<^verbatim>\<open>load_cache\<close> and \<^verbatim>\<open>save_cache\<close>, and the body of the "Fetch Codes" button.

  Text is a \<^typ>\<open>string\<close>: the list of the bytes of its UTF-8 encoding. The library
  operations the script calls (\<^verbatim>\<open>str.lower\<close>, \<^verbatim>\<open>str.upper\<close>, \<^verbatim>\<open>str.strip\<close>, the
  classes \<^verbatim>\<open>\d\<close>, \<^verbatim>\<open>\s\<close>, \<^verbatim>\<open>\w\<close> of \<^verbatim>\<open>re\<close>, \<^verbatim>\<open>datetime.strptime\<close>) are
  modelled as they act on ASCII characters; a byte above 127 is left unchanged by the
  case conversions and belongs to none of the character classes. The outcomes of the
  external collaborators (the HTTP request, the HTML parser, the file system, the clock)
  are explicit arguments of the functions that use them.
\<close>

subsection \<open>Characters and strings\<close>

definition is_upper :: "char \<Rightarrow> bool" where
  "is_upper c = (65 \<le> (of_char c :: nat) \<and> (of_char c :: nat) \<le> 90)"

definition is_lower :: "char \<Rightarrow> bool" where
  "is_lower c = (97 \<le> (of_char c :: nat) \<and> (of_char c :: nat) \<le> 122)"

text \<open>\<^verbatim>\<open>\d\<close> on ASCII: the digits 0 to 9.\<close>

definition is_digit :: "char \<Rightarrow> bool" where
  "is_digit c = (48 \<le> (of_char c :: nat) \<and> (of_char c :: nat) \<le> 57)"

text \<open>
  \<^verbatim>\<open>\s\<close> and \<^verbatim>\<open>str.isspace\<close> on ASCII: tab, line feed, vertical tab, form feed,
  carriage return, the four separators 28 to 31, and the space.
\<close>

definition is_space :: "char \<Rightarrow> bool" where
  "is_space c = ((9 \<le> (of_char c :: nat) \<and> (of_char c :: nat) \<le> 13) \<or>
                 (28 \<le> (of_char c :: nat) \<and> (of_char c :: nat) \<le> 32))"

text \<open>\<^verbatim>\<open>\w\<close> on ASCII: letters, digits and the underscore.\<close>

definition is_word :: "char \<Rightarrow> bool" where
  "is_word c = (is_upper c \<or> is_lower c \<or> is_digit c \<or> c = CHR ''_'')"

text \<open>
  An upper-case ASCII letter and its lower-case form differ by 32, which is bit 5 of the
  character code.
\<close>

definition lower_char :: "char \<Rightarrow> char" where
  "lower_char c =
     (if is_upper c
      then (case c of Char b0 b1 b2 b3 b4 b5 b6 b7 \<Rightarrow> Char b0 b1 b2 b3 b4 True b6 b7)
      else c)"

definition upper_char :: "char \<Rightarrow> char" where
  "upper_char c =
     (if is_lower c
      then (case c of Char b0 b1 b2 b3 b4 b5 b6 b7 \<Rightarrow> Char b0 b1 b2 b3 b4 False b6 b7)
      else c)"

definition str_lower :: "string \<Rightarrow> string" where
  "str_lower s = map lower_char s"

definition str_upper :: "string \<Rightarrow> string" where
  "str_upper s = map upper_char s"

text \<open>\<^verbatim>\<open>s.strip()\<close> removes the white space at both ends.\<close>

definition str_strip :: "string \<Rightarrow> string" where
  "str_strip s = rev (dropWhile is_space (rev (dropWhile is_space s)))"

text \<open>
  \<^verbatim>\<open>x in s\<close> on strings is \<^term>\<open>sublist x s\<close>: \<open>x\<close> occurs in \<open>s\<close> as a contiguous
  block.
\<close>

definition digit_val :: "char \<Rightarrow> int" where
  "digit_val c = int (of_char c) - 48"

text \<open>\<^verbatim>\<open>int(g)\<close> on a string of decimal digits.\<close>

definition int_of_digits :: "string \<Rightarrow> int" where
  "int_of_digits ds = foldl (\<lambda>n c. 10 * n + digit_val c) 0 ds"

subsection \<open>Errors and calendar dates\<close>

datatype py_error =
  ValueError | RequestException | HTTPError | ParserRejectedMarkup | JSONDecodeError | OSError

text \<open>A \<^verbatim>\<open>datetime.date\<close>; dates compare by year, then month, then day.\<close>

datatype date = Date (year: int) (month: int) (day: int)

definition date_less :: "date \<Rightarrow> date \<Rightarrow> bool" where
  "date_less a b =
     (year a < year b \<or>
      (year a = year b \<and> (month a < month b \<or> (month a = month b \<and> day a < day b))))"

definition is_leap :: "int \<Rightarrow> bool" where
  "is_leap y = (y mod 4 = 0 \<and> (y mod 100 \<noteq> 0 \<or> y mod 400 = 0))"

definition days_in_month :: "int \<Rightarrow> int \<Rightarrow> int" where
  "days_in_month y m =
     (if m = 2 then (if is_leap y then 29 else 28)
      else if m = 4 \<or> m = 6 \<or> m = 9 \<or> m = 11 then 30 else 31)"

text \<open>
  The constructor \<^verbatim>\<open>datetime.date(year, month, day)\<close> raises \<^verbatim>\<open>ValueError\<close> outside the
  years 1 to 9999, the months 1 to 12 and the days of the month.
\<close>

definition datetime_date :: "int \<Rightarrow> int \<Rightarrow> int \<Rightarrow> py_error + date" where
  "datetime_date y m d =
     (if 1 \<le> y \<and> y \<le> 9999 \<and> 1 \<le> m \<and> m \<le> 12 \<and> 1 \<le> d \<and> d \<le> days_in_month y m
      then Inr (Date y m d) else Inl ValueError)"

subsection \<open>\<^verbatim>\<open>datetime.strptime\<close>\<close>

text \<open>
  \<^verbatim>\<open>strptime\<close> turns the format into a regular expression, matches it case-insensitively
  at the start of the text, and raises \<^verbatim>\<open>ValueError\<close> when there is no match or when the
  match does not end where the text ends. A run of white space in the format becomes
  \<^verbatim>\<open>\s+\<close>, a directive becomes a group of ordered alternatives, any other character
  stands for itself.
\<close>

datatype directive = Dir_B | Dir_b | Dir_d | Dir_m | Dir_Y | Spaces | Lit char

fun fmt_items :: "string \<Rightarrow> directive list option" where
  "fmt_items [] = Some []"
| "fmt_items [c] =
     (if c = CHR ''%'' then None
      else Some [if is_space c then Spaces else Lit c])"
| "fmt_items (c # c' # cs) =
     (if c = CHR ''%'' then
        (case (if c' = CHR ''B'' then Some Dir_B
               else if c' = CHR ''b'' then Some Dir_b
               else if c' = CHR ''d'' then Some Dir_d
               else if c' = CHR ''m'' then Some Dir_m
               else if c' = CHR ''Y'' then Some Dir_Y
               else None) of
           None \<Rightarrow> None
         | Some d \<Rightarrow> (case fmt_items cs of None \<Rightarrow> None | Some ds \<Rightarrow> Some (d # ds)))
      else if is_space c then
        (case fmt_items (c' # cs) of
           None \<Rightarrow> None
         | Some ds \<Rightarrow> Some (if is_space c' then ds else Spaces # ds))
      else
        (case fmt_items (c' # cs) of None \<Rightarrow> None | Some ds \<Rightarrow> Some (Lit c # ds)))"

definition f_month :: "string list" where
  "f_month = [''january'', ''february'', ''march'', ''april'', ''may'', ''june'', ''july'',
              ''august'', ''september'', ''october'', ''november'', ''december'']"

definition a_month :: "string list" where
  "a_month = [''jan'', ''feb'', ''mar'', ''apr'', ''may'', ''jun'', ''jul'', ''aug'', ''sep'',
              ''oct'', ''nov'', ''dec'']"

text \<open>
  The fields read so far: year, month, day, starting from 1900, 1, 1. Every function
  below returns the list of the ways its pattern matches at the start of the text, the
  way the regular expression engine tries first being first; each way is the fields
  after the match and the text that is left.
\<close>

type_synonym fields = "int \<times> int \<times> int"

text \<open>
  The names of a month directive, longest first as \<^verbatim>\<open>__seqToRE\<close> sorts them, each with
  its month number.
\<close>

definition seq_to_re :: "string list \<Rightarrow> (string \<times> int) list" where
  "seq_to_re names =
     sort_key (\<lambda>e. - int (length (fst e))) (zip names (map int [1 ..< Suc (length names)]))"

definition name_alts :: "string list \<Rightarrow> string \<Rightarrow> (int \<times> string) list" where
  "name_alts names s =
     map (\<lambda>e. (snd e, drop (length (fst e)) s))
       (filter (\<lambda>e. str_lower (take (length (fst e)) s) = fst e) (seq_to_re names))"

text \<open>\<^verbatim>\<open>%d\<close> is \<^verbatim>\<open>3[0-1]|[1-2]\d|0[1-9]|[1-9]| [1-9]\<close>.\<close>

definition day_alts :: "string \<Rightarrow> (int \<times> string) list" where
  "day_alts s =
     (case s of
        [] \<Rightarrow> []
      | [c1] \<Rightarrow> (if is_digit c1 \<and> c1 \<noteq> CHR ''0'' then [(digit_val c1, [])] else [])
      | c1 # c2 # r \<Rightarrow>
          (if c1 = CHR ''3'' \<and> (c2 = CHR ''0'' \<or> c2 = CHR ''1'')
           then [(30 + digit_val c2, r)] else []) @
          (if (c1 = CHR ''1'' \<or> c1 = CHR ''2'') \<and> is_digit c2
           then [(10 * digit_val c1 + digit_val c2, r)] else []) @
          (if c1 = CHR ''0'' \<and> is_digit c2 \<and> c2 \<noteq> CHR ''0''
           then [(digit_val c2, r)] else []) @
          (if is_digit c1 \<and> c1 \<noteq> CHR ''0'' then [(digit_val c1, c2 # r)] else []) @
          (if c1 = CHR '' '' \<and> is_digit c2 \<and> c2 \<noteq> CHR ''0''
           then [(digit_val c2, r)] else []))"

text \<open>\<^verbatim>\<open>%m\<close> is \<^verbatim>\<open>1[0-2]|0[1-9]|[1-9]\<close>.\<close>

definition month_alts :: "string \<Rightarrow> (int \<times> string) list" where
  "month_alts s =
     (case s of
        [] \<Rightarrow> []
      | [c1] \<Rightarrow> (if is_digit c1 \<and> c1 \<noteq> CHR ''0'' then [(digit_val c1, [])] else [])
      | c1 # c2 # r \<Rightarrow>
          (if c1 = CHR ''1'' \<and> (c2 = CHR ''0'' \<or> c2 = CHR ''1'' \<or> c2 = CHR ''2'')
           then [(10 + digit_val c2, r)] else []) @
          (if c1 = CHR ''0'' \<and> is_digit c2 \<and> c2 \<noteq> CHR ''0''
           then [(digit_val c2, r)] else []) @
          (if is_digit c1 \<and> c1 \<noteq> CHR ''0'' then [(digit_val c1, c2 # r)] else []))"

text \<open>\<^verbatim>\<open>%Y\<close> is \<^verbatim>\<open>\d\d\d\d\<close>.\<close>

definition year_alts :: "string \<Rightarrow> (int \<times> string) list" where
  "year_alts s =
     (if 4 \<le> length s \<and> list_all is_digit (take 4 s)
      then [(int_of_digits (take 4 s), drop 4 s)] else [])"

text \<open>\<^verbatim>\<open>\s+\<close> is greedy: the whole run of white space first, then one character less.\<close>

definition space_alts :: "string \<Rightarrow> string list" where
  "space_alts s = map (\<lambda>k. drop k s) (rev [1 ..< Suc (length (takeWhile is_space s))])"

fun alts :: "directive \<Rightarrow> fields \<times> string \<Rightarrow> (fields \<times> string) list" where
  "alts Dir_B ((y, m, d), s) = map (\<lambda>(v, r). ((y, v, d), r)) (name_alts f_month s)"
| "alts Dir_b ((y, m, d), s) = map (\<lambda>(v, r). ((y, v, d), r)) (name_alts a_month s)"
| "alts Dir_d ((y, m, d), s) = map (\<lambda>(v, r). ((y, m, v), r)) (day_alts s)"
| "alts Dir_m ((y, m, d), s) = map (\<lambda>(v, r). ((y, v, d), r)) (month_alts s)"
| "alts Dir_Y ((y, m, d), s) = map (\<lambda>(v, r). ((v, m, d), r)) (year_alts s)"
| "alts Spaces (f, s) = map (\<lambda>r. (f, r)) (space_alts s)"
| "alts (Lit c) (f, s) =
     (case s of [] \<Rightarrow> [] | c' # r \<Rightarrow> (if lower_char c' = lower_char c then [(f, r)] else []))"

fun match_items :: "directive list \<Rightarrow> fields \<times> string \<Rightarrow> (fields \<times> string) list" where
  "match_items [] st = [st]"
| "match_items (d # ds) st = concat (map (match_items ds) (alts d st))"

definition strptime :: "string \<Rightarrow> string \<Rightarrow> py_error + date" where
  "strptime data_string format =
     (case fmt_items format of
        None \<Rightarrow> Inl ValueError
      | Some items \<Rightarrow>
          (case match_items items ((1900, 1, 1), data_string) of
             [] \<Rightarrow> Inl ValueError
           | ((y, m, d), rest) # _ \<Rightarrow>
               (if rest \<noteq> [] then Inl ValueError else datetime_date y m d)))"

subsection \<open>\<^verbatim>\<open>parse_date\<close>\<close>

text \<open>
  \<^verbatim>\<open>parse_date\<close> returns \<^verbatim>\<open>None\<close>, the string \<^verbatim>\<open>"EXPIRED"\<close> or a date: the three
  constructors \<open>NoExpiry\<close>, \<open>Expired\<close> and \<open>OnDate\<close>.
\<close>

datatype expiry = NoExpiry | Expired | OnDate date

definition date_formats :: "string list" where
  "date_formats = [''%B %d, %Y'', ''%b %d, %Y'', ''%Y-%m-%d'']"

text \<open>
  The markers of line 28. The third one is stored in the source file as the eight bytes
  \<^verbatim>\<open>c3 a2 e2 82 ac e2 80 9d\<close>.
\<close>

definition no_expiry_markers :: "string list" where
  "no_expiry_markers =
     [''no expiry'', ''none'',
      [CHR 0xC3, CHR 0xA2, CHR 0xE2, CHR 0x82, CHR 0xAC, CHR 0xE2, CHR 0x80, CHR 0x9D],
      ''-'', ''tbd'', ''unknown'']"

text \<open>
  \<^verbatim>\<open>re.sub(r"\[\d+\]", "", txt)\<close>: \<open>footnote_rest\<close> is the text after a footnote marker
  that starts the text, if there is one; \<open>sub_footnotes\<close> removes the markers from left
  to right.
\<close>

definition footnote_rest :: "string \<Rightarrow> string option" where
  "footnote_rest s =
     (case s of
        [] \<Rightarrow> None
      | c # cs \<Rightarrow>
          (if c = CHR ''['' \<and> takeWhile is_digit cs \<noteq> [] then
             (case dropWhile is_digit cs of
                [] \<Rightarrow> None
              | c' # r \<Rightarrow> (if c' = CHR '']'' then Some r else None))
           else None))"

function sub_footnotes :: "string \<Rightarrow> string" where
  "sub_footnotes [] = []"
| "sub_footnotes (c # cs) =
     (case footnote_rest (c # cs) of
        Some r \<Rightarrow> sub_footnotes r
      | None \<Rightarrow> c # sub_footnotes cs)"
  by pat_completeness auto
termination
proof (relation "measure length")
  show "wf (measure length)" by simp
next
  fix c cs r
  assume a: "footnote_rest (c # cs) = Some r"
  then obtain c' where "dropWhile is_digit cs = c' # r"
    by (auto simp: footnote_rest_def split: if_splits list.splits)
  then have "length (c' # r) \<le> length cs"
    by (metis length_dropWhile_le)
  then show "(r, c # cs) \<in> measure length" by simp
next
  fix c cs
  show "(cs, c # cs) \<in> measure length" by simp
qed

fun try_formats :: "string list \<Rightarrow> string \<Rightarrow> expiry" where
  "try_formats [] txt_clean = NoExpiry"
| "try_formats (fmt # fmts) txt_clean =
     (case strptime txt_clean fmt of
        Inr d \<Rightarrow> OnDate d
      | Inl e \<Rightarrow> try_formats fmts txt_clean)"

definition parse_date :: "string \<Rightarrow> expiry" where
  "parse_date txt =
     (if txt = [] then NoExpiry
      else let txt_low = str_lower txt in
        if sublist ''expired'' txt_low then Expired
        else if list_ex (\<lambda>x. sublist x txt_low) no_expiry_markers then NoExpiry
        else try_formats date_formats (str_strip (sub_footnotes txt)))"

subsection \<open>The two patterns of \<^verbatim>\<open>fetch_codes\<close>\<close>

text \<open>
  \<^verbatim>\<open>code_pattern\<close> is \<^verbatim>\<open>\b[A-Z0-9]{6,24}\b\<close>. Every character of the class is a word
  character, so a match that starts at some position takes the whole run of class
  characters there: after a shorter block the next character is a word character and
  the closing \<^verbatim>\<open>\b\<close> fails. The run must have 6 to 24 characters, the character
  before it must not be a word character, and neither must the one after it.
  \<open>code_match_at\<close> is the match at the start of the text, given whether the character
  before is a word character; \<open>code_scan\<close> is \<^verbatim>\<open>search\<close>, which takes the leftmost
  start; both return \<^verbatim>\<open>group(0)\<close>.
\<close>

definition is_code_char :: "char \<Rightarrow> bool" where
  "is_code_char c = (is_upper c \<or> is_digit c)"

definition code_match_at :: "bool \<Rightarrow> string \<Rightarrow> string option" where
  "code_match_at prev_word s =
     (let run = takeWhile is_code_char s; rest = dropWhile is_code_char s in
      if \<not> prev_word \<and> 6 \<le> length run \<and> length run \<le> 24 \<and>
         (case rest of [] \<Rightarrow> True | c # _ \<Rightarrow> \<not> is_word c)
      then Some run else None)"

fun code_scan :: "bool \<Rightarrow> string \<Rightarrow> string option" where
  "code_scan prev_word [] = None"
| "code_scan prev_word (c # cs) =
     (case code_match_at prev_word (c # cs) of
        Some m \<Rightarrow> Some m
      | None \<Rightarrow> code_scan (is_word c) cs)"

definition code_pattern_search :: "string \<Rightarrow> string option" where
  "code_pattern_search s = code_scan False s"

text \<open>
  \<^verbatim>\<open>poly_pattern\<close> is \<^verbatim>\<open>(\d{1,4})\s*Polychrome[s]?\<close>, case-insensitive. At a start
  position the group takes up to four digits, greedily; after fewer digits the next
  character is a digit, which neither \<^verbatim>\<open>\s*\<close> nor the letter P matches. Both
  functions return \<^verbatim>\<open>group(1)\<close>.
\<close>

definition poly_match_at :: "string \<Rightarrow> string option" where
  "poly_match_at s =
     (let g = take 4 (takeWhile is_digit s);
          rest = dropWhile is_space (drop (length g) s) in
      if g \<noteq> [] \<and> str_lower (take 10 rest) = ''polychrome'' then Some g else None)"

fun poly_pattern_search :: "string \<Rightarrow> string option" where
  "poly_pattern_search [] = None"
| "poly_pattern_search (c # cs) =
     (case poly_match_at (c # cs) of
        Some g \<Rightarrow> Some g
      | None \<Rightarrow> poly_pattern_search cs)"

subsection \<open>Dictionaries\<close>

text \<open>
  A Python \<^verbatim>\<open>dict\<close> keeps its keys in insertion order: an association list with distinct
  keys. \<^verbatim>\<open>d[k] = v\<close> replaces the value of a key that is present, in place, and appends
  a new key at the end.
\<close>

fun dict_set :: "('k \<times> 'v) list \<Rightarrow> 'k \<Rightarrow> 'v \<Rightarrow> ('k \<times> 'v) list" where
  "dict_set [] k v = [(k, v)]"
| "dict_set ((k', v') # d) k v =
     (if k' = k then (k', v) # d else (k', v') # dict_set d k v)"

text \<open>\<^verbatim>\<open>k in d\<close>.\<close>

definition dict_has :: "('k \<times> 'v) list \<Rightarrow> 'k \<Rightarrow> bool" where
  "dict_has d k = (k \<in> set (map fst d))"

text \<open>The comprehension \<^verbatim>\<open>{c:p for c,p in codes}\<close>.\<close>

definition dict_comp :: "('k \<times> 'v) list \<Rightarrow> ('k \<times> 'v) list" where
  "dict_comp codes = foldl (\<lambda>d e. dict_set d (fst e) (snd e)) [] codes"

subsection \<open>\<^verbatim>\<open>fetch_codes\<close>\<close>

text \<open>
  A table row is the list of the texts of its \<^verbatim>\<open>td\<close> cells. \<open>process_row\<close> is the body
  of the row loop (lines 56 to 84): \<open>None\<close> where the body ends in \<^verbatim>\<open>continue\<close> or
  appends nothing, \<open>Some (code, poly)\<close> where it appends the pair to \<^verbatim>\<open>codes\<close>.
  \<open>cell_text cells i\<close> is \<^verbatim>\<open>cells[i].get_text(...) if len(cells) > i else ""\<close>.
  \<^verbatim>\<open>parse_date\<close> never returns a \<^verbatim>\<open>datetime\<close>, so line 74 does nothing.
\<close>

definition cell_text :: "string list \<Rightarrow> nat \<Rightarrow> string" where
  "cell_text cells i = (if length cells > i then cells ! i else [])"

definition process_row :: "date \<Rightarrow> string list \<Rightarrow> (string \<times> int) option" where
  "process_row today cells =
     (if cells = [] then None
      else let code_txt = cells ! 0;
               reward_txt = cell_text cells 1;
               expiry_txt = cell_text cells 2 in
        (case code_pattern_search (str_upper code_txt) of
           None \<Rightarrow> None
         | Some code \<Rightarrow>
             (let expiry = parse_date expiry_txt in
              if expiry = Expired then None
              else if (case expiry of OnDate d \<Rightarrow> date_less d today | _ \<Rightarrow> False) then None
              else (case poly_pattern_search reward_txt of
                      None \<Rightarrow> None
                    | Some g \<Rightarrow>
                        (let poly = int_of_digits g in
                         if poly > 0 then Some (code, poly) else None)))))"

fun row_loop :: "date \<Rightarrow> string list list \<Rightarrow> (string \<times> int) list \<Rightarrow> (string \<times> int) list" where
  "row_loop today [] codes = codes"
| "row_loop today (cells # rows) codes =
     row_loop today rows
       (case process_row today cells of None \<Rightarrow> codes | Some e \<Rightarrow> codes @ [e])"

text \<open>Lines 87 to 92: the loop that removes duplicates, keeping the maximum.\<close>

fun remove_duplicates ::
  "(string \<times> int) list \<Rightarrow> (string \<times> int) list \<Rightarrow> (string \<times> int) list" where
  "remove_duplicates final_codes [] = final_codes"
| "remove_duplicates final_codes ((c, p) # codes) =
     remove_duplicates
       (case map_of final_codes c of
          Some q \<Rightarrow> dict_set final_codes c (max p q)
        | None \<Rightarrow> dict_set final_codes c p)
       codes"

text \<open>
  Lines 86 to 95, the aggregation: \<^verbatim>\<open>sorted\<close> is stable, as \<^const>\<open>sort_key\<close> is, and the
  key is the negated reward.
\<close>

definition aggregate :: "(string \<times> int) list \<Rightarrow> (string \<times> int) list" where
  "aggregate codes = sort_key (\<lambda>x. - snd x) (remove_duplicates [] codes)"

text \<open>
  The answer to the GET request carries its status and what lines 46 and 47 do with its
  text. \<open>soup\<close> is \<open>Inl e\<close> when \<^verbatim>\<open>BeautifulSoup(r.text, "html.parser")\<close> raises: the
  parser rejects some markup, a page that is only \<^verbatim>\<open><![foo bar]>\<close> for one. It is
  \<open>Inr None\<close> when the page is parsed and \<^verbatim>\<open>select_one("table.wikitable")\<close> finds no
  table, and \<open>Inr (Some rows)\<close> when it finds one, \<open>rows\<close> being the rows \<^verbatim>\<open>tbody tr\<close>
  of the table, each the texts of its cells.
  \<^verbatim>\<open>raise_for_status\<close> raises for the statuses 400 to 599.
\<close>

datatype response =
  Response (status_code: nat) (soup: "py_error + string list list option")

definition raise_for_status :: "response \<Rightarrow> py_error + unit" where
  "raise_for_status r =
     (if 400 \<le> status_code r \<and> status_code r < 600 then Inl HTTPError else Inr ())"

text \<open>
  \<open>fetch_codes today got\<close>: \<open>today\<close> is the date of the clock, \<open>got\<close> what
  \<^verbatim>\<open>requests.get\<close> does, an exception or a response. The \<^verbatim>\<open>try\<close> of lines 39 to 44
  covers the request and \<^verbatim>\<open>raise_for_status\<close>, and its handler returns the empty
  list. The parser is called after it, on line 46, so what the parser raises leaves
  \<^verbatim>\<open>fetch_codes\<close>: the result \<open>Inl e\<close>.
\<close>

definition fetch_codes ::
  "date \<Rightarrow> py_error + response \<Rightarrow> py_error + (string \<times> int) list" where
  "fetch_codes today got =
     (case (case got of
              Inl e \<Rightarrow> Inl e
            | Inr r \<Rightarrow> (case raise_for_status r of Inl e \<Rightarrow> Inl e | Inr u \<Rightarrow> Inr r)) of
        Inl e \<Rightarrow> Inr []
      | Inr r \<Rightarrow>
          (case soup r of
             Inl e \<Rightarrow> Inl e
           | Inr None \<Rightarrow> Inr []
           | Inr (Some rows) \<Rightarrow> Inr (aggregate (row_loop today rows []))))"

subsection \<open>The cache and the button\<close>

text \<open>
  The cache file is missing, or it is there and opening or decoding it raises, or it
  holds the JSON text of a dictionary. \<open>os_path_exists\<close> is
  \<^verbatim>\<open>os.path.exists(CACHE_FILE)\<close>, and \<open>open_json_load\<close> is the \<^verbatim>\<open>with\<close> block of
  \<^verbatim>\<open>load_cache\<close>, which opens the file and returns \<^verbatim>\<open>json.load(f)\<close>.
\<close>

datatype cache_file = Missing | Unloadable py_error | Holds "(string \<times> int) list"

definition os_path_exists :: "cache_file \<Rightarrow> bool" where
  "os_path_exists f = (case f of Missing \<Rightarrow> False | Unloadable e \<Rightarrow> True | Holds d \<Rightarrow> True)"

definition open_json_load :: "cache_file \<Rightarrow> py_error + (string \<times> int) list" where
  "open_json_load f =
     (case f of
        Missing \<Rightarrow> Inl OSError
      | Unloadable e \<Rightarrow> Inl e
      | Holds d \<Rightarrow> Inr d)"

definition load_cache :: "cache_file \<Rightarrow> py_error + (string \<times> int) list" where
  "load_cache f = (if os_path_exists f then open_json_load f else Inr [])"

definition save_cache :: "(string \<times> int) list \<Rightarrow> cache_file \<Rightarrow> cache_file" where
  "save_cache data f = Holds data"

text \<open>
  Lines 116 to 119: load the cache, compute \<^verbatim>\<open>new_codes\<close>, save. An exception of
  \<^verbatim>\<open>load_cache\<close> ends the run before anything is written. The result is \<^verbatim>\<open>new_codes\<close>
  and the cache file after the run.
\<close>

definition cache_diff ::
  "(string \<times> int) list \<Rightarrow> cache_file \<Rightarrow> (py_error + string list) \<times> cache_file" where
  "cache_diff codes f =
     (case load_cache f of
        Inl e \<Rightarrow> (Inl e, f)
      | Inr cached \<Rightarrow>
          (let new_codes = filter (\<lambda>c. \<not> dict_has cached c) (map fst codes) in
           (Inr new_codes, save_cache (dict_comp codes) f)))"

text \<open>
  The body of the button, lines 115 to 119: an exception of \<^verbatim>\<open>fetch_codes\<close> ends the
  run before the cache is read. The result is \<^verbatim>\<open>codes\<close> with \<^verbatim>\<open>new_codes\<close>, and the
  cache file after the run.
\<close>

definition fetch_button ::
  "date \<Rightarrow> py_error + response \<Rightarrow> cache_file \<Rightarrow>
   (py_error + (string \<times> int) list \<times> string list) \<times> cache_file" where
  "fetch_button today got f =
     (case fetch_codes today got of
        Inl e \<Rightarrow> (Inl e, f)
      | Inr codes \<Rightarrow>
          (case cache_diff codes f of
             (Inl e, f') \<Rightarrow> (Inl e, f')
           | (Inr new_codes, f') \<Rightarrow> (Inr (codes, new_codes), f')))"

subsection \<open>Notions used to state the properties\<close>

text \<open>
  The elements of a list in the order of their first occurrence, each once.
\<close>

fun first_occurrences :: "'a list \<Rightarrow> 'a list" where
  "first_occurrences [] = []"
| "first_occurrences (x # xs) = x # filter (\<lambda>y. y \<noteq> x) (first_occurrences xs)"

text \<open>The body of the loop that removes duplicates: one assignment to \<^verbatim>\<open>final_codes\<close>.\<close>

definition rd_step :: "(string \<times> int) list \<Rightarrow> string \<Rightarrow> int \<Rightarrow> (string \<times> int) list" where
  "rd_step fc c p = (case map_of fc c of Some q \<Rightarrow> dict_set fc c (max p q) | None \<Rightarrow> dict_set fc c p)"

text \<open>The rewards that a list of pairs gives for one code.\<close>

definition rewards_of :: "string \<Rightarrow> (string \<times> int) list \<Rightarrow> int list" where
  "rewards_of c codes = map snd (filter (\<lambda>e. fst e = c) codes)"

section \<open>Properties\<close>

subsection \<open>Dates\<close>


lemma date_less_asym: "date_less a b \<Longrightarrow> \<not> date_less b a"
  by (auto simp: date_less_def)

subsection \<open>Dictionaries and the removal of duplicates\<close>

lemma map_of_dict_set: "map_of (dict_set d k v) = (map_of d)(k \<mapsto> v)"
  by (induction d) (auto simp: fun_eq_iff)

lemma keys_dict_set:
  "map fst (dict_set d k v) = (if k \<in> set (map fst d) then map fst d else map fst d @ [k])"
  by (induction d) force+

lemma keys_rd_step:
  "map fst (rd_step fc c p) = (if c \<in> set (map fst fc) then map fst fc else map fst fc @ [c])"
  by (simp add: rd_step_def keys_dict_set split: option.splits)

lemma map_of_rd_step:
  "map_of (rd_step fc c p) = (map_of fc)(c \<mapsto> (case map_of fc c of Some q \<Rightarrow> max p q | None \<Rightarrow> p))"
  by (simp add: rd_step_def map_of_dict_set split: option.splits)

lemma rd_Cons: "remove_duplicates fc ((c, p) # codes) = remove_duplicates (rd_step fc c p) codes"
  by (simp add: rd_step_def)

lemma keys_remove_duplicates:
  "map fst (remove_duplicates fc codes) =
   map fst fc @ filter (\<lambda>c. c \<notin> set (map fst fc)) (first_occurrences (map fst codes))"
proof (induction codes arbitrary: fc)
  case Nil
  then show ?case by simp
next
  case (Cons e codes)
  obtain c p where e: "e = (c, p)" by (cases e)
  show ?case
  proof (cases "c \<in> set (map fst fc)")
    case True
    then have "(\<lambda>x. x \<noteq> c \<and> x \<notin> set (map fst fc)) = (\<lambda>x. x \<notin> set (map fst fc))"
      by auto
    with True show ?thesis
      unfolding e rd_Cons Cons.IH by (simp add: keys_rd_step del: set_map)
  next
    case False
    then show ?thesis
      unfolding e rd_Cons Cons.IH
      by (simp add: keys_rd_step del: set_map)
  qed
qed

lemma rewards_of_simps:
  "rewards_of c [] = []"
  "rewards_of c ((c', p) # codes) = (if c' = c then p # rewards_of c codes else rewards_of c codes)"
  by (simp_all add: rewards_of_def)

lemma set_rewards_of: "set (rewards_of c codes) = {q. (c, q) \<in> set codes}"
  by (force simp: rewards_of_def)

lemma rewards_of_Nil_iff: "(rewards_of c codes = []) = (c \<notin> fst ` set codes)"
proof -
  have "(rewards_of c codes = []) = (set (rewards_of c codes) = {})" by simp
  also have "\<dots> = (c \<notin> fst ` set codes)"
    unfolding set_rewards_of by force
  finally show ?thesis .
qed

lemma map_of_remove_duplicates:
  "map_of (remove_duplicates fc codes) c =
   (case map_of fc c of
      None \<Rightarrow> (if rewards_of c codes = [] then None else Some (Max (set (rewards_of c codes))))
    | Some v \<Rightarrow> Some (Max (insert v (set (rewards_of c codes)))))"
proof (induction codes arbitrary: fc)
  case Nil
  then show ?case by (simp add: rewards_of_simps split: option.splits)
next
  case (Cons e codes)
  obtain c' p where e: "e = (c', p)" by (cases e)
  show ?case
  proof (cases "c' = c")
    case False
    then show ?thesis
      unfolding e rd_Cons Cons.IH
      by (simp add: map_of_rd_step rewards_of_simps split: option.splits)
  next
    case True
    have fin: "finite (set (rewards_of c codes))" by simp
    show ?thesis
    proof (cases "map_of fc c")
      case None
      with True show ?thesis
        unfolding e rd_Cons Cons.IH
        by (simp add: map_of_rd_step rewards_of_simps)
    next
      case (Some q)
      have "Max (insert (max p q) (set (rewards_of c codes))) =
            Max (insert q (insert p (set (rewards_of c codes))))"
        by (cases "set (rewards_of c codes) = {}") (simp_all add: max.commute max.left_commute)
      with True Some show ?thesis
        unfolding e rd_Cons Cons.IH
        by (simp add: map_of_rd_step rewards_of_simps)
    qed
  qed
qed

lemma distinct_keys_remove_duplicates:
  "distinct (map fst fc) \<Longrightarrow> distinct (map fst (remove_duplicates fc codes))"
proof (induction codes arbitrary: fc)
  case Nil
  then show ?case by simp
next
  case (Cons e codes)
  obtain c p where e: "e = (c, p)" by (cases e)
  from Cons.prems have "distinct (map fst (rd_step fc c p))"
    by (simp add: keys_rd_step del: set_map)
  then show ?case
    unfolding e rd_Cons by (rule Cons.IH)
qed

lemma distinct_keys_sort_key:
  "distinct (map fst (sort_key f xs)) = distinct (map fst xs)"
  by (simp add: distinct_map)

lemma distinct_keys_aggregate: "distinct (map fst (aggregate codes))"
  by (simp add: aggregate_def distinct_keys_sort_key distinct_keys_remove_duplicates)

lemma set_aggregate: "set (aggregate codes) = set (remove_duplicates [] codes)"
  by (simp add: aggregate_def)

lemma map_of_aggregate: "map_of (aggregate codes) = map_of (remove_duplicates [] codes)"
proof
  fix c
  have d1: "distinct (map fst (aggregate codes))" by (rule distinct_keys_aggregate)
  have d2: "distinct (map fst (remove_duplicates [] codes))"
    by (simp add: distinct_keys_remove_duplicates)
  show "map_of (aggregate codes) c = map_of (remove_duplicates [] codes) c"
  proof (cases "map_of (remove_duplicates [] codes) c")
    case None
    then have "c \<notin> fst ` set (remove_duplicates [] codes)"
      by (simp add: map_of_eq_None_iff)
    then have "c \<notin> fst ` set (aggregate codes)"
      by (simp add: set_aggregate)
    then have "map_of (aggregate codes) c = None"
      by (metis map_of_eq_None_iff)
    with None show ?thesis by simp
  next
    case (Some p)
    with d2 have "(c, p) \<in> set (aggregate codes)"
      by (simp add: set_aggregate)
    with d1 Some show ?thesis by simp
  qed
qed

lemma map_of_aggregate_max:
  "map_of (aggregate codes) c =
     (if c \<in> fst ` set codes then Some (Max {q. (c, q) \<in> set codes}) else None)"
  by (simp add: map_of_aggregate map_of_remove_duplicates rewards_of_Nil_iff set_rewards_of)


subsection \<open>Sorting\<close>

lemma sorted_desc_aggregate: "sorted_wrt (\<lambda>a b. snd b \<le> snd a) (aggregate codes)"
proof -
  have "sorted (map (\<lambda>x. - snd x) (aggregate codes))"
    unfolding aggregate_def by (rule sorted_sort_key)
  then show ?thesis by (simp add: sorted_map)
qed

lemma filter_aggregate:
  "filter (\<lambda>e. snd e = k) (aggregate codes) = filter (\<lambda>e. snd e = k) (remove_duplicates [] codes)"
proof -
  have "filter (\<lambda>e. - snd e = - k) (sort_key (\<lambda>x. - snd x) (remove_duplicates [] codes)) =
        filter (\<lambda>e. - snd e = - k) (remove_duplicates [] codes)"
    by (rule sort_key_stable)
  then show ?thesis by (simp add: aggregate_def)
qed

lemma keys_filter_value:
  "distinct (map fst xs) \<Longrightarrow>
   map fst (filter (\<lambda>e. snd e = k) xs) = filter (\<lambda>c. map_of xs c = Some k) (map fst xs)"
proof (induction xs)
  case Nil
  then show ?case by simp
next
  case (Cons x xs)
  obtain c p where x: "x = (c, p)" by (cases x)
  from Cons.prems x have notin: "c \<notin> set (map fst xs)" and d: "distinct (map fst xs)"
    by simp_all
  have "filter (\<lambda>c'. map_of (x # xs) c' = Some k) (map fst xs) =
        filter (\<lambda>c'. map_of xs c' = Some k) (map fst xs)"
    using notin by (intro filter_cong) (auto simp: x)
  with Cons.IH [OF d] show ?case by (simp add: x)
qed

subsection \<open>The dictionary comprehension\<close>

lemma dict_set_new: "k \<notin> set (map fst d) \<Longrightarrow> dict_set d k v = d @ [(k, v)]"
  by (induction d) auto

lemma foldl_dict_set_distinct:
  "distinct (map fst (d @ codes)) \<Longrightarrow>
   foldl (\<lambda>d e. dict_set d (fst e) (snd e)) d codes = d @ codes"
proof (induction codes arbitrary: d)
  case Nil
  then show ?case by simp
next
  case (Cons e codes)
  from Cons.prems have "fst e \<notin> set (map fst d)" by auto
  then have step: "dict_set d (fst e) (snd e) = d @ [e]"
    by (simp add: dict_set_new)
  from Cons.prems have "distinct (map fst ((d @ [e]) @ codes))" by simp
  from Cons.IH [OF this] step show ?case by simp
qed

lemma dict_comp_distinct: "distinct (map fst codes) \<Longrightarrow> dict_comp codes = codes"
  using foldl_dict_set_distinct [of "[]" codes] by (simp add: dict_comp_def)

lemma distinct_keys_fetch_codes:
  "fetch_codes today got = Inr codes \<Longrightarrow> distinct (map fst codes)"
  by (auto simp: fetch_codes_def distinct_keys_aggregate split: sum.splits option.splits)

subsection \<open>The row loop\<close>

lemma set_row_loop_acc:
  "set (row_loop today rows codes) =
   set codes \<union> {e. \<exists>cells \<in> set rows. process_row today cells = Some e}"
  by (induction rows arbitrary: codes) (auto split: option.splits)

lemma set_row_loop:
  "set (row_loop today rows []) = {e. \<exists>cells \<in> set rows. process_row today cells = Some e}"
  by (simp add: set_row_loop_acc)

lemma process_row_Some:
  assumes "process_row today cells = Some (c, p)"
  shows "cells \<noteq> []"
    and "code_pattern_search (str_upper (cells ! 0)) = Some c"
    and "parse_date (cell_text cells 2) \<noteq> Expired"
    and "parse_date (cell_text cells 2) = OnDate d \<Longrightarrow> \<not> date_less d today"
    and "\<exists>g. poly_pattern_search (cell_text cells 1) = Some g \<and> p = int_of_digits g"
    and "0 < p"
  using assms
  by (auto simp: process_row_def Let_def split: if_splits option.splits expiry.splits)

lemma process_row_retained:
  assumes "cells \<noteq> []"
    and "code_pattern_search (str_upper (cells ! 0)) = Some code"
    and "parse_date (cell_text cells 2) = OnDate d"
    and "poly_pattern_search (cell_text cells 1) = Some g"
    and "0 < int_of_digits g"
  shows "process_row today cells =
           (if date_less d today then None else Some (code, int_of_digits g))"
  using assms by (simp add: process_row_def Let_def)

lemma example_row1:
  "date_less today (Date 2099 1 1) \<Longrightarrow>
   process_row today [''ABCDEF123'', ''500 Polychrome'', ''January 1, 2099''] =
     Some (''ABCDEF123'', 500)"
proof -
  assume lt: "date_less today (Date 2099 1 1)"
  have c: "code_pattern_search (str_upper ([''ABCDEF123'', ''500 Polychrome'', ''January 1, 2099''] ! 0)) = Some ''ABCDEF123''"
    by code_simp
  have e: "parse_date (cell_text [''ABCDEF123'', ''500 Polychrome'', ''January 1, 2099''] 2) = OnDate (Date 2099 1 1)"
    by code_simp
  have r: "poly_pattern_search (cell_text [''ABCDEF123'', ''500 Polychrome'', ''January 1, 2099''] 1) = Some ''500''"
    by code_simp
  have v: "int_of_digits ''500'' = 500" by code_simp
  have ne: "[''ABCDEF123'', ''500 Polychrome'', ''January 1, 2099''] \<noteq> []" by simp
  from lt have "\<not> date_less (Date 2099 1 1) today" by (rule date_less_asym)
  with process_row_retained [OF ne c e r, of today] v show ?thesis by simp
qed

lemma example_row2:
  "process_row today [''GHIJKL456'', ''300 Polychromes'', ''expired''] = None"
proof -
  have c: "code_pattern_search (str_upper ([''GHIJKL456'', ''300 Polychromes'', ''expired''] ! 0)) = Some ''GHIJKL456''"
    by code_simp
  have e: "parse_date (cell_text [''GHIJKL456'', ''300 Polychromes'', ''expired''] 2) = Expired"
    by code_simp
  from c e show ?thesis by (simp add: process_row_def Let_def)
qed

subsection \<open>A hyphen in the expiry text\<close>

text \<open>
  The marker \<^verbatim>\<open>"-"\<close> of line 28 is looked for before any format is tried, so a text
  with a hyphen never gives a date.
\<close>

lemma parse_date_hyphen: "CHR ''-'' \<in> set txt \<Longrightarrow> parse_date txt \<noteq> OnDate d"
proof -
  assume a: "CHR ''-'' \<in> set txt"
  then have "CHR ''-'' \<in> set (str_lower txt)"
    by (force simp: str_lower_def lower_char_def is_upper_def)
  then obtain ps ss where "str_lower txt = ps @ ''-'' @ ss"
    by (auto simp: in_set_conv_decomp)
  then have "sublist ''-'' (str_lower txt)"
    unfolding sublist_def by blast
  then have "list_ex (\<lambda>x. sublist x (str_lower txt)) no_expiry_markers"
    by (simp add: no_expiry_markers_def)
  then show ?thesis
    by (simp add: parse_date_def Let_def)
qed

section \<open>The claims\<close>

text \<open>
  C1. An expiry text that is an ISO date, such as \<^verbatim>\<open>2099-01-01\<close>, should give the date
  of the third format. On the code it gives \<open>NoExpiry\<close>: the text holds the hyphen
  marker of line 28, and \<^verbatim>\<open>parse_date\<close> returns before it tries the formats, although
  the list of formats, applied to the cleaned text, does read the date.
\<close>

theorem iso_date_not_parsed:
  "parse_date ''2099-01-01'' = NoExpiry \<and>
   try_formats date_formats (str_strip (sub_footnotes ''2099-01-01'')) = OnDate (Date 2099 1 1)"
  by code_simp

text \<open>
  C2, as stated, fails: a row whose expiry date lies in the future relative to the
  current date is appended to the candidate list.
\<close>

theorem future_expiry_appended:
  "row_loop (Date 2026 11 4) [[''ABCDEF123'', ''500 Polychrome'', ''January 1, 2099'']] [] =
     [(''ABCDEF123'', 500)] \<and>
   parse_date (cell_text [''ABCDEF123'', ''500 Polychrome'', ''January 1, 2099''] 2) =
     OnDate (Date 2099 1 1) \<and>
   date_less (Date 2026 11 4) (Date 2099 1 1)"
  by code_simp

text \<open>
  C2, amended. Every pair appended to the candidate list comes from a row whose expiry
  status is not \<open>Expired\<close>, whose expiry date, when it has one, is not before the
  current date, and whose reward is positive.
\<close>

theorem appended_rows_filtered:
  "(c, p) \<in> set (row_loop today rows []) \<Longrightarrow>
   \<exists>cells \<in> set rows.
     process_row today cells = Some (c, p) \<and>
     parse_date (cell_text cells 2) \<noteq> Expired \<and>
     (\<forall>d. parse_date (cell_text cells 2) = OnDate d \<longrightarrow> \<not> date_less d today) \<and>
     0 < p"
proof -
  assume "(c, p) \<in> set (row_loop today rows [])"
  then obtain cells where m: "cells \<in> set rows" and s: "process_row today cells = Some (c, p)"
    by (auto simp: set_row_loop)
  from process_row_Some(3,4,6) [OF s] have
    "parse_date (cell_text cells 2) \<noteq> Expired \<and>
     (\<forall>d. parse_date (cell_text cells 2) = OnDate d \<longrightarrow> \<not> date_less d today) \<and>
     0 < p"
    by blast
  with m s show ?thesis by blast
qed

text \<open>C2, amended, at the first row of the example, on 4 November 2026.\<close>

theorem appended_rows_filtered_witness:
  "(''ABCDEF123'', 500) \<in>
     set (row_loop (Date 2026 11 4)
            [[''ABCDEF123'', ''500 Polychrome'', ''January 1, 2099'']] []) \<and>
   process_row (Date 2026 11 4) [''ABCDEF123'', ''500 Polychrome'', ''January 1, 2099''] =
     Some (''ABCDEF123'', 500) \<and>
   parse_date (cell_text [''ABCDEF123'', ''500 Polychrome'', ''January 1, 2099''] 2) =
     OnDate (Date 2099 1 1) \<and>
   \<not> date_less (Date 2099 1 1) (Date 2026 11 4)"
proof -
  have a: "(''ABCDEF123'', 500) \<in>
     set (row_loop (Date 2026 11 4)
            [[''ABCDEF123'', ''500 Polychrome'', ''January 1, 2099'']] [])"
    by code_simp
  have e: "parse_date (cell_text [''ABCDEF123'', ''500 Polychrome'', ''January 1, 2099''] 2) =
     OnDate (Date 2099 1 1)"
    by code_simp
  from appended_rows_filtered [OF a] e
  have "process_row (Date 2026 11 4) [''ABCDEF123'', ''500 Polychrome'', ''January 1, 2099''] =
          Some (''ABCDEF123'', 500) \<and>
        \<not> date_less (Date 2099 1 1) (Date 2026 11 4)"
    by simp
  with a e show ?thesis by simp
qed

text \<open>
  C3, as stated, fails: when the cache file is there and cannot be decoded,
  \<^verbatim>\<open>load_cache\<close> raises, and the run ends without a result.
\<close>

theorem load_cache_undecodable_raises:
  "load_cache (Unloadable JSONDecodeError) \<noteq> Inr [] \<and>
   cache_diff [(''ABCDEF123'', 500)] (Unloadable JSONDecodeError) =
     (Inl JSONDecodeError, Unloadable JSONDecodeError)"
  by (simp add: load_cache_def os_path_exists_def open_json_load_def cache_diff_def)

text \<open>
  C3, amended. When the cache file is missing, \<^verbatim>\<open>load_cache\<close> returns the empty
  dictionary and the run goes on as a first run: every code is new and the codes are
  saved. When the file is there and opening or decoding it raises, the exception leaves
  \<^verbatim>\<open>load_cache\<close> and nothing is written.
\<close>

theorem load_cache_missing:
  "load_cache Missing = Inr [] \<and>
   cache_diff codes Missing = (Inr (map fst codes), Holds (dict_comp codes)) \<and>
   load_cache (Unloadable e) = Inl e \<and>
   cache_diff codes (Unloadable e) = (Inl e, Unloadable e)"
  by (simp add: load_cache_def os_path_exists_def open_json_load_def cache_diff_def
      save_cache_def dict_has_def)

text \<open>
  C4. The aggregation keeps one entry for each code of its input, and the reward of the
  entry is the maximum of the rewards the input gives for the code; a code that comes
  twice, with 50 and with 100, gives the one entry with 100.
\<close>

theorem aggregate_keeps_maximum:
  "distinct (map fst (aggregate codes)) \<and>
   fst ` set (aggregate codes) = fst ` set codes \<and>
   (\<forall>e \<in> set (aggregate codes). snd e = Max {q. (fst e, q) \<in> set codes}) \<and>
   aggregate [(c, 50), (c, 100)] = [(c, 100)] \<and>
   aggregate [(c, 100), (c, 50)] = [(c, 100)]"
proof -
  have d: "distinct (map fst (aggregate codes))" by (rule distinct_keys_aggregate)
  have k: "fst ` set (aggregate codes) = fst ` set codes"
  proof -
    have "dom (map_of (aggregate codes)) = fst ` set codes"
      by (auto simp: dom_def map_of_aggregate_max)
    then show ?thesis by (simp add: dom_map_of_conv_image_fst)
  qed
  have m: "\<forall>e \<in> set (aggregate codes). snd e = Max {q. (fst e, q) \<in> set codes}"
  proof
    fix e assume "e \<in> set (aggregate codes)"
    with d have "map_of (aggregate codes) (fst e) = Some (snd e)" by simp
    then show "snd e = Max {q. (fst e, q) \<in> set codes}"
      by (simp add: map_of_aggregate_max split: if_splits)
  qed
  have e1: "aggregate [(c, 50), (c, 100)] = [(c, 100)]"
    by (simp add: aggregate_def)
  have e2: "aggregate [(c, 100), (c, 50)] = [(c, 100)]"
    by (simp add: aggregate_def)
  from d k m e1 e2 show ?thesis by blast
qed

text \<open>C4 at a list in which one code comes twice.\<close>

theorem aggregate_keeps_maximum_witness:
  "aggregate [(''ABCDEF'', 50), (''GHIJKL'', 70), (''ABCDEF'', 100)] =
     [(''ABCDEF'', 100), (''GHIJKL'', 70)] \<and>
   Max {q. (''ABCDEF'', q) \<in> set [(''ABCDEF'', 50::int), (''GHIJKL'', 70), (''ABCDEF'', 100)]} = 100 \<and>
   Max {q. (''GHIJKL'', q) \<in> set [(''ABCDEF'', 50::int), (''GHIJKL'', 70), (''ABCDEF'', 100)]} = 70"
proof -
  have v: "aggregate [(''ABCDEF'', 50), (''GHIJKL'', 70), (''ABCDEF'', 100)] =
     [(''ABCDEF'', 100), (''GHIJKL'', 70)]"
    by code_simp
  from aggregate_keeps_maximum [of "[(''ABCDEF'', 50), (''GHIJKL'', 70), (''ABCDEF'', 100)]"]
  have "\<forall>e \<in> set [(''ABCDEF'', 100::int), (''GHIJKL'', 70)].
      snd e = Max {q. (fst e, q) \<in> set [(''ABCDEF'', 50), (''GHIJKL'', 70), (''ABCDEF'', 100)]}"
    unfolding v by blast
  with v show ?thesis by simp
qed

text \<open>
  C5. The result of the aggregation is sorted by reward, descending; the codes that
  share a reward come in the order of their first occurrence in the input; the rewards
  500, 100, 300 of three codes come out as 500, 300, 100.
\<close>

theorem aggregate_sorted_stable:
  "sorted_wrt (\<lambda>a b. snd b \<le> snd a) (aggregate codes) \<and>
   (\<forall>k. map fst (filter (\<lambda>e. snd e = k) (aggregate codes)) =
        filter (\<lambda>c. map_of (aggregate codes) c = Some k) (first_occurrences (map fst codes))) \<and>
   (a \<noteq> b \<and> a \<noteq> c \<and> b \<noteq> c \<longrightarrow>
      aggregate [(a, 500), (b, 100), (c, 300)] = [(a, 500), (c, 300), (b, 100)])"
proof -
  have s: "sorted_wrt (\<lambda>a b. snd b \<le> snd a) (aggregate codes)"
    by (rule sorted_desc_aggregate)
  have st: "map fst (filter (\<lambda>e. snd e = k) (aggregate codes)) =
        filter (\<lambda>c. map_of (aggregate codes) c = Some k) (first_occurrences (map fst codes))" for k
  proof -
    have d: "distinct (map fst (remove_duplicates [] codes))"
      by (simp add: distinct_keys_remove_duplicates)
    have "map fst (filter (\<lambda>e. snd e = k) (aggregate codes)) =
          filter (\<lambda>c. map_of (remove_duplicates [] codes) c = Some k)
            (map fst (remove_duplicates [] codes))"
      unfolding filter_aggregate by (rule keys_filter_value [OF d])
    then show ?thesis
      by (simp add: map_of_aggregate keys_remove_duplicates)
  qed
  have ex: "a \<noteq> b \<and> a \<noteq> c \<and> b \<noteq> c \<longrightarrow>
      aggregate [(a, 500), (b, 100), (c, 300)] = [(a, 500), (c, 300), (b, 100)]"
    by (simp add: aggregate_def)
  from s st ex show ?thesis by blast
qed

text \<open>C5 at three distinct codes, and at a list with two codes of reward 70.\<close>

theorem aggregate_sorted_stable_witness:
  "aggregate [(''AAAAAA'', 500), (''BBBBBB'', 100), (''CCCCCC'', 300)] =
     [(''AAAAAA'', 500), (''CCCCCC'', 300), (''BBBBBB'', 100)] \<and>
   map fst (filter (\<lambda>e. snd e = 70)
     (aggregate [(''XXXXXX'', 70), (''YYYYYY'', 90), (''ZZZZZZ'', 70), (''XXXXXX'', 20)])) =
     [''XXXXXX'', ''ZZZZZZ'']"
proof -
  have ne: "''AAAAAA'' \<noteq> ''BBBBBB'' \<and> ''AAAAAA'' \<noteq> ''CCCCCC'' \<and> ''BBBBBB'' \<noteq> ''CCCCCC''"
    by simp
  have f: "filter (\<lambda>c. map_of (aggregate [(''XXXXXX'', 70), (''YYYYYY'', 90), (''ZZZZZZ'', 70), (''XXXXXX'', 20)]) c = Some 70)
     (first_occurrences (map fst [(''XXXXXX'', 70), (''YYYYYY'', 90), (''ZZZZZZ'', 70), (''XXXXXX'', 20::int)])) = [''XXXXXX'', ''ZZZZZZ'']"
    by (simp add: aggregate_def)
  from aggregate_sorted_stable [of "[(''XXXXXX'', 70), (''YYYYYY'', 90), (''ZZZZZZ'', 70), (''XXXXXX'', 20)]"
      "''AAAAAA''" "''BBBBBB''" "''CCCCCC''"] ne f
  show ?thesis by simp
qed

text \<open>
  C6. When the fetch returns and the cache loads, \<^verbatim>\<open>new_codes\<close> is the list of the
  codes of the fetched result that are not keys of the loaded dictionary, and the cache
  file then holds the pairs of the fetched result and nothing else; with \<open>A: 10\<close>
  cached and the result \<open>A: 10, B: 20\<close>, the new codes are \<open>B\<close> and the cache holds
  \<open>A: 10, B: 20\<close>.
\<close>

theorem fetch_button_cache:
  "fetch_codes today got = Inr codes \<Longrightarrow>
   load_cache f = Inr cached \<Longrightarrow>
   fetch_button today got f =
     (Inr (codes, filter (\<lambda>c. c \<notin> fst ` set cached) (map fst codes)), Holds codes) \<and>
   cache_diff [(''A'', 10), (''B'', 20)] (Holds [(''A'', 10)]) =
     (Inr [''B''], Holds [(''A'', 10), (''B'', 20)])"
proof -
  assume fc: "fetch_codes today got = Inr codes" and l: "load_cache f = Inr cached"
  have "dict_comp codes = codes"
    by (rule dict_comp_distinct [OF distinct_keys_fetch_codes [OF fc]])
  with fc l have a: "fetch_button today got f =
     (Inr (codes, filter (\<lambda>c. c \<notin> fst ` set cached) (map fst codes)), Holds codes)"
    by (simp add: fetch_button_def cache_diff_def save_cache_def dict_has_def Let_def)
  have b: "cache_diff [(''A'', 10), (''B'', 20)] (Holds [(''A'', 10)]) =
     (Inr [''B''], Holds [(''A'', 10), (''B'', 20)])"
    by (simp add: cache_diff_def load_cache_def os_path_exists_def open_json_load_def
        save_cache_def dict_has_def dict_comp_def)
  from a b show ?thesis by simp
qed

text \<open>C6 at the two rows of the example, with another code cached before.\<close>

theorem fetch_button_cache_witness:
  "fetch_codes (Date 2026 11 4)
     (Inr (Response 200 (Inr (Some [[''ABCDEF123'', ''500 Polychrome'', ''January 1, 2099''],
                                    [''GHIJKL456'', ''300 Polychromes'', ''expired'']])))) =
     Inr [(''ABCDEF123'', 500)] \<and>
   load_cache (Holds [(''GHIJKL456'', 300)]) = Inr [(''GHIJKL456'', 300)] \<and>
   fetch_button (Date 2026 11 4)
     (Inr (Response 200 (Inr (Some [[''ABCDEF123'', ''500 Polychrome'', ''January 1, 2099''],
                                    [''GHIJKL456'', ''300 Polychromes'', ''expired'']]))))
     (Holds [(''GHIJKL456'', 300)]) =
     (Inr ([(''ABCDEF123'', 500)], [''ABCDEF123'']), Holds [(''ABCDEF123'', 500)])"
proof -
  have l: "load_cache (Holds [(''GHIJKL456'', 300)]) = Inr [(''GHIJKL456'', 300)]"
    by (simp add: load_cache_def os_path_exists_def open_json_load_def)
  have v: "fetch_codes (Date 2026 11 4)
     (Inr (Response 200 (Inr (Some [[''ABCDEF123'', ''500 Polychrome'', ''January 1, 2099''],
                                    [''GHIJKL456'', ''300 Polychromes'', ''expired'']])))) =
     Inr [(''ABCDEF123'', 500)]"
    by code_simp
  from fetch_button_cache [OF v l] l v show ?thesis by simp
qed

text \<open>
  C7. On a day before 1 January 2099, a page whose table has the two rows of the
  example gives the one code \<open>ABCDEF123\<close> with reward 500.
\<close>

theorem fetch_codes_example:
  "date_less today (Date 2099 1 1) \<Longrightarrow>
   raise_for_status r = Inr () \<Longrightarrow>
   soup r = Inr (Some [[''ABCDEF123'', ''500 Polychrome'', ''January 1, 2099''],
                       [''GHIJKL456'', ''300 Polychromes'', ''expired'']]) \<Longrightarrow>
   fetch_codes today (Inr r) = Inr [(''ABCDEF123'', 500)]"
  by (simp add: fetch_codes_def example_row1 example_row2 aggregate_def)

text \<open>C7 on 4 November 2026, with status 200.\<close>

theorem fetch_codes_example_witness:
  "date_less (Date 2026 11 4) (Date 2099 1 1) \<and>
   fetch_codes (Date 2026 11 4)
     (Inr (Response 200 (Inr (Some [[''ABCDEF123'', ''500 Polychrome'', ''January 1, 2099''],
                                    [''GHIJKL456'', ''300 Polychromes'', ''expired'']])))) =
     Inr [(''ABCDEF123'', 500)]"
proof -
  have a: "date_less (Date 2026 11 4) (Date 2099 1 1)" by (simp add: date_less_def)
  have b: "raise_for_status
     (Response 200 (Inr (Some [[''ABCDEF123'', ''500 Polychrome'', ''January 1, 2099''],
                               [''GHIJKL456'', ''300 Polychromes'', ''expired'']]))) = Inr ()"
    by (simp add: raise_for_status_def)
  from fetch_codes_example [OF a b] a show ?thesis by simp
qed




text \<open>
  C9. A non-empty expiry text in which the word "expired" occurs, in any mix of upper
  and lower case, gives \<open>Expired\<close>, whatever else the text holds: \<open>w\<close> is the
  occurrence, a block of the text whose lower-case form is \<^verbatim>\<open>expired\<close>.
\<close>

theorem parse_date_expired:
  "txt \<noteq> [] \<Longrightarrow> sublist w txt \<Longrightarrow> str_lower w = ''expired'' \<Longrightarrow> parse_date txt = Expired"
proof -
  assume ne: "txt \<noteq> []" and sub: "sublist w txt" and low: "str_lower w = ''expired''"
  from sub have "sublist (map lower_char w) (map lower_char txt)"
    by (rule map_mono_sublist)
  with low have "sublist ''expired'' (str_lower txt)"
    by (simp add: str_lower_def)
  with ne show ?thesis
    by (simp add: parse_date_def)
qed

text \<open>C9 at a text that also holds two of the no-expiry markers and a date.\<close>

theorem parse_date_expired_witness:
  "sublist ''ExPiReD'' ''No expiry - ExPiReD on January 1, 2099'' \<and>
   str_lower ''ExPiReD'' = ''expired'' \<and>
   parse_date ''No expiry - ExPiReD on January 1, 2099'' = Expired"
proof -
  have a: "''No expiry - ExPiReD on January 1, 2099'' \<noteq> []" by simp
  have b: "sublist ''ExPiReD'' ''No expiry - ExPiReD on January 1, 2099''" by code_simp
  have c: "str_lower ''ExPiReD'' = ''expired''" by code_simp
  from parse_date_expired [OF a b c] b c show ?thesis by simp
qed



end
